theory Spec2Isabelle
  imports Main "HOL-Library.Sublist" "HOL-Library.Word"
begin

section \<open>JavaScript values and the string primitives used by server.js\<close>

text \<open>
  A JavaScript string is a sequence of UTF-16 code units. The model uses \<^typ>\<open>string\<close>,
  so it covers the strings whose code units lie in 0..255; \<^const>\<open>length\<close> counts code
  units as \<^verbatim>\<open>String.prototype.slice\<close> does.

  \<open>jsval\<close> is the part of the JSON value space that the request field \<^verbatim>\<open>folder\<close> and the
  variable \<^verbatim>\<open>folderNumber\<close> range over. \<open>JNum n\<close> is the Number that the
  integer numeral \<open>n\<close> denotes, the double nearest to \<open>n\<close> (fractions and NaN are not
  modelled); \<open>JObject l\<close> is
  an object or function, named by a label.
\<close>

datatype jsval =
    JUndefined
  | JNull
  | JBool bool
  | JNum int
  | JStr string
  | JObject string

fun truthy :: "jsval \<Rightarrow> bool" where
  "truthy JUndefined = False"
| "truthy JNull = False"
| "truthy (JBool b) = b"
| "truthy (JNum n) = (n \<noteq> 0)"
| "truthy (JStr s) = (s \<noteq> [])"
| "truthy (JObject l) = True"

text \<open>White space and line terminators (the class \<^verbatim>\<open>\s\<close>, also what \<^verbatim>\<open>trim\<close> and
  \<^verbatim>\<open>parseInt\<close> skip), within the code units 0..255: TAB, LF, VT, FF, CR, SP, NBSP.\<close>

definition isWhiteSpace :: "char \<Rightarrow> bool" where
  "isWhiteSpace c = (let n = (of_char c :: nat) in
     n = 9 \<or> n = 10 \<or> n = 11 \<or> n = 12 \<or> n = 13 \<or> n = 32 \<or> n = 160)"

definition trim :: "string \<Rightarrow> string" where
  "trim s = rev (dropWhile isWhiteSpace (rev (dropWhile isWhiteSpace s)))"

text \<open>\<^verbatim>\<open>String.prototype.includes\<close>: is \<open>p\<close> a contiguous part of \<open>s\<close>.\<close>

fun includes_str :: "string \<Rightarrow> string \<Rightarrow> bool" where
  "includes_str [] p = (p = [])"
| "includes_str (c # cs) p = (prefix p (c # cs) \<or> includes_str cs p)"

subsection \<open>Number to string, and parseInt\<close>

definition digitChar :: "nat \<Rightarrow> char" where
  "digitChar d = char_of (48 + d)"

fun decimalDigits :: "nat \<Rightarrow> string" where
  "decimalDigits n =
     (if n < 10 then [digitChar n] else decimalDigits (n div 10) @ [digitChar (n mod 10)])"

declare decimalDigits.simps [simp del]

text \<open>
  A Number is an IEEE 754 double. \<open>roundToDouble m\<close> is the double nearest to the
  non-negative integer \<open>m\<close>, ties going to the even significand; \<open>None\<close> is
  \<^verbatim>\<open>Infinity\<close>. Integers of at most 53 bits are doubles as they stand.
\<close>

fun bitLength :: "nat \<Rightarrow> nat" where
  "bitLength n = (if n = 0 then 0 else Suc (bitLength (n div 2)))"

declare bitLength.simps [simp del]

definition roundToDouble :: "nat \<Rightarrow> nat option" where
  "roundToDouble m =
     (if bitLength m \<le> 53 then Some m
      else
        let e = bitLength m - 53;
            q = m div 2 ^ e;
            r = m mod 2 ^ e;
            q' = (if 2 ^ e < 2 * r \<or> (2 * r = 2 ^ e \<and> odd q) then q + 1 else q)
        in if 2 ^ 1024 \<le> q' * 2 ^ e then None else Some (q' * 2 ^ e))"

text \<open>
  \<^verbatim>\<open>Number::toString\<close> picks the decimal with the fewest significant digits that
  still denotes the double \<open>x\<close>, and among those the one closest to \<open>x\<close> (the even
  one on a tie). \<open>pick x p\<close> looks among the multiples of \<open>10^p\<close>: only the two
  around \<open>x\<close> can qualify. \<open>searchDigits\<close> tries the exponents from the largest
  down, that is, the digit counts from one up.
\<close>

definition pick :: "nat \<Rightarrow> nat \<Rightarrow> nat option" where
  "pick x p =
     (let s = x div 10 ^ p;
          lo = s * 10 ^ p;
          hi = lo + 10 ^ p;
          okLo = (roundToDouble lo = Some x);
          okHi = (roundToDouble hi = Some x)
      in if okLo \<and> okHi then
           Some (if x - lo < hi - x then lo
                 else if hi - x < x - lo then hi
                 else if even s then lo else hi)
         else if okLo then Some lo
         else if okHi then Some hi
         else None)"

fun searchDigits :: "nat \<Rightarrow> nat \<Rightarrow> nat" where
  "searchDigits x p =
     (if p = 0 then x
      else (case pick x p of Some v \<Rightarrow> v | None \<Rightarrow> searchDigits x (p - 1)))"

declare searchDigits.simps [simp del]

definition shortestDecimal :: "nat \<Rightarrow> nat" where
  "shortestDecimal x = searchDigits x (length (decimalDigits x) - 1)"

text \<open>
  The numeral of the decimal chosen: up to 21 digits all of them, beyond that the
  exponential form (\<^verbatim>\<open>String(1e21) = "1e+21"\<close>).
\<close>

definition formatDecimal :: "nat \<Rightarrow> string" where
  "formatDecimal v =
     (let ds = decimalDigits v; n = length ds
      in if n \<le> 21 then ds
         else (case rev (dropWhile (\<lambda>c. c = CHR ''0'') (rev ds)) of
                 [] \<Rightarrow> ds
               | d # frac \<Rightarrow>
                   (if frac = [] then [d] else d # CHR ''.'' # frac)
                     @ ''e+'' @ decimalDigits (n - 1)))"

text \<open>\<^verbatim>\<open>String(x)\<close> for the Number that the integer numeral \<open>x\<close> denotes.\<close>

definition numberToString :: "int \<Rightarrow> string" where
  "numberToString x =
     (if x < 0 then ''-'' else []) @
     (case roundToDouble (nat \<bar>x\<bar>) of
        None \<Rightarrow> ''Infinity''
      | Some d \<Rightarrow> formatDecimal (shortestDecimal d))"

definition digitValue :: "char \<Rightarrow> nat option" where
  "digitValue c =
     (let n = (of_char c :: nat) in
      if 48 \<le> n \<and> n \<le> 57 then Some (n - 48)
      else if 97 \<le> n \<and> n \<le> 122 then Some (n - 87)
      else if 65 \<le> n \<and> n \<le> 90 then Some (n - 55)
      else None)"

definition isRadixDigit :: "nat \<Rightarrow> char \<Rightarrow> bool" where
  "isRadixDigit R c = (case digitValue c of None \<Rightarrow> False | Some d \<Rightarrow> d < R)"

fun digitsValue :: "nat \<Rightarrow> nat \<Rightarrow> string \<Rightarrow> nat" where
  "digitsValue R acc [] = acc"
| "digitsValue R acc (c # cs) =
     digitsValue R (acc * R + (case digitValue c of None \<Rightarrow> 0 | Some d \<Rightarrow> d)) cs"

fun stripSign :: "string \<Rightarrow> int \<times> string" where
  "stripSign [] = (1, [])"
| "stripSign (c # cs) =
     (if c = CHR ''-'' then (- 1, cs) else if c = CHR ''+'' then (1, cs) else (1, c # cs))"

text \<open>
  \<^verbatim>\<open>parseInt(string, radix)\<close> on a string; radix 0 stands for an omitted radix. The
  result \<open>None\<close> is NaN. The value is the exact integer of the digits read (JavaScript
  rounds it to a Number, which changes nothing below 2^53).
\<close>

definition parseInt :: "string \<Rightarrow> nat \<Rightarrow> int option" where
  "parseInt inputString radix =
     (case stripSign (dropWhile isWhiteSpace inputString) of (sign, S) \<Rightarrow>
        if radix \<noteq> 0 \<and> (radix < 2 \<or> 36 < radix) then None
        else
          let stripPrefix = (radix = 0 \<or> radix = 16);
              hex = (stripPrefix \<and> (take 2 S = ''0x'' \<or> take 2 S = ''0X''));
              R = (if hex then 16 else if radix = 0 then 10 else radix);
              Z = takeWhile (isRadixDigit R) (if hex then drop 2 S else S)
          in if Z = [] then None else Some (sign * int (digitsValue R 0 Z)))"

section \<open>Folder resolution (server.js, lines 31-49 and 90-101)\<close>

definition reportTypeToFolder :: "(string \<times> int) list" where
  "reportTypeToFolder =
     [(''liquid_ir'', 1),
      (''draining_dry_ir'', 2),
      (''final_dimension_ir'', 3),
      (''hydrostatic_ir'', 4),
      (''penetrating_oil_ir'', 5),
      (''pickling_pass_ir'', 6),
      (''raw_material_ir'', 7),
      (''rf_pad_ir'', 8),
      (''stage_ir'', 9),
      (''surface_prep_paint_ir'', 10),
      (''vacuum_ir'', 11),
      (''visual_exam_ir'', 12),
      (''extra1'', 13),
      (''extra2'', 14),
      (''extra3'', 15)]"

text \<open>
  \<^verbatim>\<open>reportTypeToFolder\<close> is an object literal, so a property read that finds no own
  property goes on to \<^verbatim>\<open>Object.prototype\<close>, whose members are functions or objects.
\<close>

definition objectPrototypeKeys :: "string list" where
  "objectPrototypeKeys =
     [''constructor'', ''hasOwnProperty'', ''isPrototypeOf'', ''propertyIsEnumerable'',
      ''toLocaleString'', ''toString'', ''valueOf'', ''__proto__'',
      ''__defineGetter__'', ''__defineSetter__'', ''__lookupGetter__'', ''__lookupSetter__'']"

text \<open>The property read \<^verbatim>\<open>reportTypeToFolder[key]\<close>.\<close>

definition getFolderProperty :: "string \<Rightarrow> jsval" where
  "getFolderProperty key =
     (case map_of reportTypeToFolder key of
        Some n \<Rightarrow> JNum n
      | None \<Rightarrow>
          if List.member objectPrototypeKeys key then JObject (''Object.prototype.'' @ key)
          else JUndefined)"

text \<open>The request body of \<^verbatim>\<open>POST /submit-report\<close>. The fields \<^verbatim>\<open>html\<close>,
  \<^verbatim>\<open>reportType\<close> and \<^verbatim>\<open>reportTitle\<close> are absent (\<open>None\<close>) or strings.\<close>

record request =
  html :: "string option"
  reportType :: "string option"
  folder :: jsval
  reportTitle :: "string option"

text \<open>The else-if branch of lines 94-97: \<^verbatim>\<open>folder\<close> is a number, or a string that is
  not blank; then \<^verbatim>\<open>parseInt(folder, 10)\<close> must lie in 1..15.\<close>

fun folderFromRaw :: "jsval \<Rightarrow> jsval" where
  "folderFromRaw (JNum x) =
     (case parseInt (numberToString x) 10 of
        None \<Rightarrow> JNull
      | Some f \<Rightarrow> if 1 \<le> f \<and> f \<le> 15 then JNum f else JNull)"
| "folderFromRaw (JStr s) =
     (if trim s \<noteq> [] then
        (case parseInt s 10 of
           None \<Rightarrow> JNull
         | Some f \<Rightarrow> if 1 \<le> f \<and> f \<le> 15 then JNum f else JNull)
      else JNull)"
| "folderFromRaw v = JNull"

text \<open>The condition of line 92, \<^verbatim>\<open>reportType && reportTypeToFolder[reportType]\<close>, as a value.\<close>

definition reportTypeLookup :: "string option \<Rightarrow> jsval" where
  "reportTypeLookup rt =
     (case rt of
        None \<Rightarrow> JUndefined
      | Some key \<Rightarrow> if key = [] then JStr [] else getFolderProperty key)"

text \<open>Lines 91-97: the value of \<^verbatim>\<open>folderNumber\<close> after folder resolution.\<close>

definition folderNumber :: "string option \<Rightarrow> jsval \<Rightarrow> jsval" where
  "folderNumber rt fld =
     (if truthy (reportTypeLookup rt) then reportTypeLookup rt else folderFromRaw fld)"

section \<open>Document normalisation (server.js, lines 108-136)\<close>

text \<open>\<^verbatim>\<open>a || d\<close> where \<open>a\<close> is an absent or string field and \<open>d\<close> a string.\<close>

fun orElse :: "string option \<Rightarrow> string \<Rightarrow> string" where
  "orElse None d = d"
| "orElse (Some s) d = (if s \<noteq> [] then s else d)"

text \<open>Line 108:
  \<^verbatim>\<open>(reportTitle || reportType || "Report").toString().replace(/</g, "").slice(0, 150)\<close>.\<close>

definition resolvedTitle :: "string option \<Rightarrow> string option \<Rightarrow> string" where
  "resolvedTitle title rt =
     take 150 (filter (\<lambda>c. c \<noteq> CHR ''<'') (orElse title (orElse rt ''Report'')))"

definition charsetDeclaration :: string where
  \<open>charsetDeclaration = ''<meta charset="UTF-8">''\<close>

definition defaultStylesheet :: string where
  \<open>defaultStylesheet = concat
     [''<style>\<newline>'',
      ''            html, body {\<newline>'',
      ''              margin: 0;\<newline>'',
      ''              padding: 0;\<newline>'',
      ''              font-family: 'Segoe UI', Arial, sans-serif;\<newline>'',
      ''              font-size: 12pt;\<newline>'',
      ''              color: #000;\<newline>'',
      ''            }\<newline>'',
      ''            input, textarea, select {\<newline>'',
      ''              font-family: 'Segoe UI', Arial, sans-serif;\<newline>'',
      ''              font-size: 12pt;\<newline>'',
      ''              color: #000;\<newline>'',
      ''              border: none;\<newline>'',
      ''            }\<newline>'',
      ''            table { border-collapse: collapse; width: 100%; }\<newline>'',
      ''            td, th { border: 1px solid #000; padding: 8px; word-wrap: break-word; white-space: pre-wrap; }\<newline>'',
      ''          </style>'']\<close>

text \<open>The template literal of lines 110-136, cut at its two holes.\<close>

definition shellBeforeTitle :: string where
  \<open>shellBeforeTitle = concat
     [''\<newline>'',
      ''      <!DOCTYPE html>\<newline>'',
      ''      <html>\<newline>'',
      ''        <head>\<newline>'',
      ''          '', charsetDeclaration, ''\<newline>'',
      ''          <title>'']\<close>

definition shellBeforeBody :: string where
  \<open>shellBeforeBody = concat
     [''</title>\<newline>'',
      ''          '', defaultStylesheet, ''\<newline>'',
      ''        </head>\<newline>'',
      ''        <body>'']\<close>

definition shellAfterBody :: string where
  \<open>shellAfterBody = concat
     [''</body>\<newline>'',
      ''      </html>\<newline>'',
      ''    '']\<close>

definition fullHtml :: "string \<Rightarrow> string \<Rightarrow> string" where
  "fullHtml h title =
     (if includes_str h ''<html'' then h
      else shellBeforeTitle @ title @ shellBeforeBody @ h @ shellAfterBody)"

section \<open>File name (server.js, lines 150-152)\<close>

definition isFileNameChar :: "char \<Rightarrow> bool" where
  \<comment> \<open>the characters that \<^verbatim>\<open>/[^\w\-_.]/g\<close> leaves in place\<close>
  "isFileNameChar c = (let n = (of_char c :: nat) in
     (48 \<le> n \<and> n \<le> 57) \<or> (65 \<le> n \<and> n \<le> 90) \<or> (97 \<le> n \<and> n \<le> 122)
     \<or> n = 95 \<or> n = 45 \<or> n = 46)"

text \<open>\<^verbatim>\<open>replace(/\s+/g, "_")\<close>: every maximal run of white space becomes one underscore.\<close>

function collapseWhiteSpace :: "string \<Rightarrow> string" where
  "collapseWhiteSpace [] = []"
| "collapseWhiteSpace (c # cs) =
     (if isWhiteSpace c then CHR ''_'' # collapseWhiteSpace (dropWhile isWhiteSpace cs)
      else c # collapseWhiteSpace cs)"
  by pat_completeness auto
termination
  by (relation "measure length") (auto simp: le_imp_less_Suc length_dropWhile_le)

definition safeNameBase :: "string option \<Rightarrow> string \<Rightarrow> string" where
  "safeNameBase rt title =
     filter isFileNameChar
       (case rt of
          None \<Rightarrow> collapseWhiteSpace title
        | Some key \<Rightarrow> if key \<noteq> [] then key else collapseWhiteSpace title)"

definition uploadFilename :: "string option \<Rightarrow> string \<Rightarrow> nat \<Rightarrow> string" where
  \<comment> \<open>\<^verbatim>\<open>`${safeNameBase}-${Date.now()}.pdf`\<close>; the third argument is \<^verbatim>\<open>Date.now()\<close>\<close>
  "uploadFilename rt title now = safeNameBase rt title @ ''-'' @ decimalDigits now @ ''.pdf''"

section \<open>The rendering engine and the blob store as the handlers see them\<close>

type_synonym byte = "8 word"

datatype media = Screen | Print

record pdfOptions =
  format :: string
  printBackground :: bool
  margin_top :: string
  margin_bottom :: string
  margin_left :: string
  margin_right :: string

text \<open>The calls a handler makes on the browser and on the bucket, in the order made.\<close>

datatype call =
    Launch
  | NewContext
  | NewPage
  | SetContent string string
  | EmulateMedia media
  | WaitForTimeout nat
  | PagePdf pdfOptions
  | BrowserClose
  | OpenUploadStream string jsval
  | UploadEnd "byte list"

datatype browserState = NotLaunched | Open | Closed

text \<open>
  What the outside world answers during one submission: whether each awaited call of
  lines 104-148 resolves (\<open>False\<close>: it rejects and control goes to the catch block), the
  buffer that \<^verbatim>\<open>page.pdf\<close> yields, whether the upload stream ends without an error, and
  the two clocks (\<^verbatim>\<open>Date.now()\<close> and the store's upload date).
\<close>

record env =
  launch_ok :: bool
  newContext_ok :: bool
  newPage_ok :: bool
  setContent_ok :: bool
  emulateMedia_ok :: bool
  waitForTimeout_ok :: bool
  pdf_result :: "byte list option"
  close_ok :: bool
  upload_ok :: bool
  dateNow :: nat
  uploadTime :: nat

record fileDoc =
  doc_id :: nat
  doc_filename :: string
  doc_folder :: jsval
  doc_uploadDate :: nat
  doc_content :: "byte list"

record store =
  files :: "fileDoc list"
  nextId :: nat

definition hasId :: "nat \<Rightarrow> fileDoc \<Rightarrow> bool" where
  "hasId i d = (doc_id d = i)"

text \<open>
  Modelled from the spec: the GridFS bucket of the mongodb driver, which is not under
  src/. \<open>write(filename, folder, content) -> id\<close> records the content with metadata
  \<open>{folder}\<close> under a new id and makes it visible to list and read at once; a failed
  write leaves no listable artifact. The id is drawn when the stream is opened.
\<close>

definition bucketWrite ::
  "store \<Rightarrow> string \<Rightarrow> jsval \<Rightarrow> byte list \<Rightarrow> nat \<Rightarrow> bool \<Rightarrow> store \<times> nat option" where
  "bucketWrite s name fld buf t ok =
     (let i = nextId s in
      if ok then
        (s\<lparr>files := files s @
              [\<lparr>doc_id = i, doc_filename = name, doc_folder = fld,
                doc_uploadDate = t, doc_content = buf\<rparr>],
            nextId := Suc i\<rparr>, Some i)
      else (s\<lparr>nextId := Suc i\<rparr>, None))"

text \<open>
  Modelled from the spec: the GridFS bucket. \<open>read(id)\<close> opens a stream over the stored
  content; it fails (\<open>None\<close>) if the id is absent.
\<close>

definition bucketRead :: "store \<Rightarrow> nat \<Rightarrow> byte list option" where
  "bucketRead s i = map_option doc_content (find (hasId i) (files s))"

text \<open>
  Modelled from the spec: the GridFS bucket. \<open>delete(id)\<close> removes the artifact and all
  its chunks; it fails (\<open>None\<close>) if the id is absent.
\<close>

definition bucketDelete :: "store \<Rightarrow> nat \<Rightarrow> store option" where
  "bucketDelete s i =
     (if list_ex (hasId i) (files s)
      then Some (s\<lparr>files := filter (\<lambda>d. \<not> hasId i d) (files s)\<rparr>)
      else None)"

text \<open>
  Modelled from the spec: the files collection of the bucket. \<open>list(folderFilter?)\<close>
  returns the artifacts matching the optional folder filter, most recent upload first.
\<close>

definition collectionFind :: "store \<Rightarrow> int option \<Rightarrow> fileDoc list" where
  "collectionFind s flt =
     rev (sort_key doc_uploadDate
       (case flt of
          None \<Rightarrow> files s
        | Some f \<Rightarrow> filter (\<lambda>d. doc_folder d = JNum f) (files s)))"

section \<open>The handlers\<close>

datatype response =
    Status_Error nat string
  | Json_fileId nat
  | Json_reportList "(nat \<times> string \<times> jsval \<times> nat) list"
  | Json_message string
  | Pdf_stream "byte list"
  | Stream_failed

record outcome =
  response :: response
  store_after :: store
  browser :: browserState
  trace :: "call list"

definition a4Options :: pdfOptions where
  "a4Options =
     \<lparr>format = ''A4'', printBackground = True,
      margin_top = ''20mm'', margin_bottom = ''20mm'',
      margin_left = ''15mm'', margin_right = ''15mm''\<rparr>"

definition generationFailed :: "store \<Rightarrow> browserState \<Rightarrow> call list \<Rightarrow> outcome" where
  \<comment> \<open>the catch block, lines 167-170\<close>
  "generationFailed s b tr =
     \<lparr>response = Status_Error 500 ''Failed to generate PDF'',
      store_after = s, browser = b, trace = tr\<rparr>"

text \<open>
  The awaited calls of the try block, lines 104-106 and 138-148, on the document \<open>doc\<close>:
  the state the browser is left in, the calls made, and the PDF buffer (\<open>None\<close> when one
  of the calls rejected, which passes control to the catch block).
\<close>

definition renderPdf :: "env \<Rightarrow> string \<Rightarrow> browserState \<times> call list \<times> byte list option" where
  "renderPdf e doc =
     (if \<not> launch_ok e then (NotLaunched, [Launch], None)
      else if \<not> newContext_ok e then (Open, [Launch, NewContext], None)
      else if \<not> newPage_ok e then (Open, [Launch, NewContext, NewPage], None)
      else if \<not> setContent_ok e then
        (Open, [Launch, NewContext, NewPage, SetContent doc ''networkidle''], None)
      else if \<not> emulateMedia_ok e then
        (Open, [Launch, NewContext, NewPage, SetContent doc ''networkidle'',
                EmulateMedia Screen], None)
      else if \<not> waitForTimeout_ok e then
        (Open, [Launch, NewContext, NewPage, SetContent doc ''networkidle'',
                EmulateMedia Screen, WaitForTimeout 500], None)
      else
        (case pdf_result e of
           None \<Rightarrow>
             (Open, [Launch, NewContext, NewPage, SetContent doc ''networkidle'',
                     EmulateMedia Screen, WaitForTimeout 500, PagePdf a4Options], None)
         | Some pdfBuffer \<Rightarrow>
             if \<not> close_ok e then
               (Open, [Launch, NewContext, NewPage, SetContent doc ''networkidle'',
                       EmulateMedia Screen, WaitForTimeout 500, PagePdf a4Options,
                       BrowserClose], None)
             else
               (Closed, [Launch, NewContext, NewPage, SetContent doc ''networkidle'',
                         EmulateMedia Screen, WaitForTimeout 500, PagePdf a4Options,
                         BrowserClose], Some pdfBuffer)))"

text \<open>
  \<^verbatim>\<open>POST /submit-report\<close>, lines 81-171, for a request that passed \<^verbatim>\<open>authMiddleware\<close>,
  with the bucket connected.
\<close>

definition submitReport :: "env \<Rightarrow> store \<Rightarrow> request \<Rightarrow> outcome" where
  "submitReport e s req =
     (if orElse (html req) [] = [] then
        \<lparr>response = Status_Error 400 ''Missing HTML'',
         store_after = s, browser = NotLaunched, trace = []\<rparr>
      else
      let fn = folderNumber (reportType req) (folder req) in
      if \<not> truthy fn then
        \<lparr>response =
           Status_Error 400 ''Missing or invalid reportType/folder (must map to 1-15)'',
         store_after = s, browser = NotLaunched, trace = []\<rparr>
      else
      let title = resolvedTitle (reportTitle req) (reportType req);
          doc = fullHtml (orElse (html req) []) title
      in
      (case renderPdf e doc of
         (b, tr, None) \<Rightarrow> generationFailed s b tr
       | (b, tr, Some pdfBuffer) \<Rightarrow>
           let name = uploadFilename (reportType req) title (dateNow e);
               tr' = tr @ [OpenUploadStream name fn, UploadEnd pdfBuffer]
           in
           (case bucketWrite s name fn pdfBuffer (uploadTime e) (upload_ok e) of
              (s', None) \<Rightarrow>
                \<lparr>response = Status_Error 500 ''Failed to upload PDF'',
                 store_after = s', browser = b, trace = tr'\<rparr>
            | (s', Some i) \<Rightarrow>
                \<lparr>response = Json_fileId i,
                 store_after = s', browser = b, trace = tr'\<rparr>)))"

text \<open>
  \<^verbatim>\<open>GET /all-reports\<close>, lines 174-196; \<open>q\<close> is \<^verbatim>\<open>req.query.folder\<close> (absent, or a string)
  and \<open>up\<close> tells whether the database answers.
\<close>

definition allReports :: "bool \<Rightarrow> store \<Rightarrow> string option \<Rightarrow> response" where
  "allReports up s q =
     (let fld = parseInt (case q of None \<Rightarrow> ''undefined'' | Some v \<Rightarrow> v) 0 in
      if \<not> up then Status_Error 500 ''Failed to fetch reports''
      else Json_reportList
        (map (\<lambda>file. (doc_id file, doc_filename file,
                      (if truthy (doc_folder file) then doc_folder file else JNull),
                      doc_uploadDate file))
          (collectionFind s fld)))"

text \<open>The path parameter \<^verbatim>\<open>:fileId\<close>: \<^verbatim>\<open>new ObjectId(...)\<close> throws on a malformed one.\<close>

datatype idParam = Malformed | ObjectId nat

text \<open>
  \<^verbatim>\<open>GET /get-pdf/:fileId\<close>, lines 198-209. A missing file makes the download stream fail
  after the handler has returned, outside its try block.
\<close>

definition getPdf :: "store \<Rightarrow> idParam \<Rightarrow> response" where
  "getPdf s p =
     (case p of
        Malformed \<Rightarrow> Status_Error 500 ''Failed to retrieve PDF''
      | ObjectId i \<Rightarrow>
          (case bucketRead s i of
             None \<Rightarrow> Stream_failed
           | Some bytes \<Rightarrow> Pdf_stream bytes))"

text \<open>\<^verbatim>\<open>DELETE /delete-report/:fileId\<close>, lines 211-221.\<close>

definition deleteReport :: "store \<Rightarrow> idParam \<Rightarrow> store \<times> response" where
  "deleteReport s p =
     (case p of
        Malformed \<Rightarrow> (s, Status_Error 500 ''Failed to delete report'')
      | ObjectId i \<Rightarrow>
          (case bucketDelete s i of
             None \<Rightarrow> (s, Status_Error 500 ''Failed to delete report'')
           | Some s' \<Rightarrow> (s', Json_message ''Report deleted successfully'')))"

text \<open>The ids a listing response mentions.\<close>

fun listedIds :: "response \<Rightarrow> nat list" where
  "listedIds (Json_reportList es) = map fst es"
| "listedIds r = []"

subsection \<open>Sequences of requests\<close>

datatype operation =
    Submit env request
  | Delete idParam
  | ListReports "string option"
  | Download idParam

fun step :: "store \<Rightarrow> operation \<Rightarrow> store" where
  "step s (Submit e req) = store_after (submitReport e s req)"
| "step s (Delete p) = fst (deleteReport s p)"
| "step s (ListReports q) = s"
| "step s (Download p) = s"

definition run :: "store \<Rightarrow> operation list \<Rightarrow> store" where
  "run s ops = foldl step s ops"

text \<open>Ids are issued in increasing order, so every stored id is below the next one.\<close>

definition storeInv :: "store \<Rightarrow> bool" where
  "storeInv s = list_all (\<lambda>d. doc_id d < nextId s) (files s)"

text \<open>Every awaited call of the try block up to \<^verbatim>\<open>browser.close()\<close> resolves.\<close>

definition renderOk :: "env \<Rightarrow> bool" where
  "renderOk e =
     (launch_ok e \<and> newContext_ok e \<and> newPage_ok e \<and> setContent_ok e \<and>
      emulateMedia_ok e \<and> waitForTimeout_ok e \<and> pdf_result e \<noteq> None \<and> close_ok e)"

subsection \<open>Concrete inputs\<close>

definition pdfBytes :: "byte list" where
  \<comment> \<open>the signature \<^verbatim>\<open>%PDF-\<close>\<close>
  "pdfBytes = [0x25, 0x50, 0x44, 0x46, 0x2D]"

definition okEnv :: env where
  "okEnv =
     \<lparr>launch_ok = True, newContext_ok = True, newPage_ok = True, setContent_ok = True,
      emulateMedia_ok = True, waitForTimeout_ok = True, pdf_result = Some pdfBytes,
      close_ok = True, upload_ok = True, dateNow = 1700000000000, uploadTime = 1700000000001\<rparr>"

definition emptyStore :: store where
  "emptyStore = \<lparr>files = [], nextId = 0\<rparr>"

definition liquidRequest :: request where
  "liquidRequest =
     \<lparr>html = Some ''<p>x</p>'', reportType = Some ''liquid_ir'',
      folder = JUndefined, reportTitle = None\<rparr>"

definition oneFileStore :: store where
  "oneFileStore =
     \<lparr>files = [\<lparr>doc_id = 0, doc_filename = ''liquid_ir-1700000000000.pdf'',
                 doc_folder = JNum 1, doc_uploadDate = 1700000000001,
                 doc_content = pdfBytes\<rparr>],
      nextId = 1\<rparr>"

definition rawFolderRequest :: "jsval \<Rightarrow> request" where
  "rawFolderRequest fld =
     \<lparr>html = Some ''<p>x</p>'', reportType = None, folder = fld, reportTitle = None\<rparr>"

definition constructorRequest :: request where
  "constructorRequest =
     \<lparr>html = Some ''<p>x</p>'', reportType = Some ''constructor'',
      folder = JUndefined, reportTitle = None\<rparr>"

section \<open>Facts about the primitives\<close>

lemma includes_str_sublist: "includes_str s p \<longleftrightarrow> sublist p s"
  by (induction s) (auto simp: sublist_Cons_right)


lemma parseInt_examples:
  "parseInt ''7.9'' 10 = Some 7" "parseInt ''7abc'' 10 = Some 7" "parseInt ''1'' 0 = Some 1"
  by (simp_all add: parseInt_def isWhiteSpace_def isRadixDigit_def digitValue_def)

text \<open>What \<^verbatim>\<open>parseInt\<close> reads: the leading decimal numeral, whatever follows it.\<close>

lemma digitValue_digitChar: "d < 10 \<Longrightarrow> digitValue (digitChar d) = Some d"
  by (simp add: digitValue_def digitChar_def)

lemma digitChar_plain:
  "d < 10 \<Longrightarrow> \<not> isWhiteSpace (digitChar d) \<and> digitChar d \<noteq> CHR ''-'' \<and> digitChar d \<noteq> CHR ''+''"
  by (auto simp: isWhiteSpace_def digitChar_def char_of_eq_iff take_bit_eq_mod)

lemma isRadixDigit_digitChar: "d < 10 \<Longrightarrow> isRadixDigit 10 (digitChar d)"
  by (simp add: isRadixDigit_def digitValue_digitChar)

lemma decimalDigits_digits: "list_all (isRadixDigit 10) (decimalDigits n)"
proof (induction n rule: decimalDigits.induct)
  case (1 n)
  show ?case
  proof (cases "n < 10")
    case True
    then show ?thesis
      by (subst decimalDigits.simps) (simp add: isRadixDigit_digitChar)
  next
    case False
    with 1 show ?thesis
      by (subst decimalDigits.simps) (simp add: isRadixDigit_digitChar)
  qed
qed

lemma digitsValue_append:
  "digitsValue R acc (xs @ ys) = digitsValue R (digitsValue R acc xs) ys"
  by (induction xs arbitrary: acc) simp_all

lemma digitsValue_decimalDigits: "digitsValue 10 0 (decimalDigits n) = n"
proof (induction n rule: decimalDigits.induct)
  case (1 n)
  show ?case
  proof (cases "n < 10")
    case True
    then show ?thesis by (subst decimalDigits.simps) (simp add: digitValue_digitChar)
  next
    case False
    with 1 have "digitsValue 10 0 (decimalDigits (n div 10)) = n div 10" by simp
    with False show ?thesis
      by (subst decimalDigits.simps) (simp add: digitsValue_append digitValue_digitChar)
  qed
qed

lemma decimalDigits_hd:
  "\<exists>d cs. d < 10 \<and> decimalDigits n = digitChar d # cs"
proof (induction n rule: decimalDigits.induct)
  case (1 n)
  show ?case
  proof (cases "n < 10")
    case True
    then show ?thesis by (subst decimalDigits.simps) auto
  next
    case False
    with 1 obtain d cs where "d < 10" "decimalDigits (n div 10) = digitChar d # cs" by auto
    with False show ?thesis by (subst decimalDigits.simps) auto
  qed
qed

lemma length_decimalDigits: "0 < k \<Longrightarrow> n < 10 ^ k \<Longrightarrow> length (decimalDigits n) \<le> k"
proof (induction n arbitrary: k rule: decimalDigits.induct)
  case (1 n)
  show ?case
  proof (cases "n < 10")
    case True
    with 1 show ?thesis by (subst decimalDigits.simps) simp
  next
    case False
    from False "1.prems" have k: "1 < k"
      by (cases "k = 1") auto
    then obtain j where j: "k = Suc j" "0 < j" by (cases k) auto
    from "1.prems" j have "n div 10 < 10 ^ j"
      by (simp add: less_mult_imp_div_less mult.commute)
    from "1.IH"[OF False j(2) this] False j show ?thesis
      by (subst decimalDigits.simps) simp
  qed
qed

lemma takeWhile_prefix:
  "list_all P xs \<Longrightarrow> rest = [] \<or> \<not> P (hd rest) \<Longrightarrow> takeWhile P (xs @ rest) = xs"
  by (induction xs) (auto simp: takeWhile_eq_Nil_iff neq_Nil_conv)

lemma parseInt_numeric_prefix:
  assumes "rest = [] \<or> \<not> isRadixDigit 10 (hd rest)"
  shows "parseInt (decimalDigits n @ rest) 10 = Some (int n)"
    and "parseInt (CHR ''-'' # decimalDigits n @ rest) 10 = Some (- int n)"
proof -
  obtain d cs where d: "d < 10" "decimalDigits n = digitChar d # cs"
    using decimalDigits_hd by blast
  have tw: "takeWhile (isRadixDigit 10) (decimalDigits n @ rest) = decimalDigits n"
    using takeWhile_prefix[OF decimalDigits_digits assms] .
  have ne: "decimalDigits n \<noteq> []" using d by simp
  have sg: "stripSign (decimalDigits n @ rest) = (1, decimalDigits n @ rest)"
    using d digitChar_plain[OF d(1)] by simp
  have dw: "dropWhile isWhiteSpace (decimalDigits n @ rest) = decimalDigits n @ rest"
    using d digitChar_plain[OF d(1)] by simp
  show "parseInt (decimalDigits n @ rest) 10 = Some (int n)"
    unfolding parseInt_def dw sg
    by (simp add: tw ne digitsValue_decimalDigits Let_def)
  have dw': "dropWhile isWhiteSpace (CHR ''-'' # decimalDigits n @ rest)
               = CHR ''-'' # decimalDigits n @ rest"
    by (simp add: isWhiteSpace_def)
  show "parseInt (CHR ''-'' # decimalDigits n @ rest) 10 = Some (- int n)"
    unfolding parseInt_def dw'
    by (simp add: tw ne digitsValue_decimalDigits Let_def)
qed

text \<open>Doubles: the integers below \<open>2^53\<close> are exact, and print as their decimal numeral.\<close>

lemma bitLength_le_iff: "bitLength m \<le> k \<longleftrightarrow> m < 2 ^ k"
proof (induction m arbitrary: k rule: bitLength.induct)
  case (1 n)
  show ?case
  proof (cases "n = 0")
    case True
    then show ?thesis by (subst bitLength.simps) simp
  next
    case False
    show ?thesis
    proof (cases k)
      case 0
      with False show ?thesis by (subst bitLength.simps) simp
    next
      case (Suc j)
      have "n div 2 < 2 ^ j \<longleftrightarrow> n < 2 ^ Suc j" by auto
      with "1.IH"[OF False, of j] False Suc show ?thesis
        by (subst bitLength.simps) simp
    qed
  qed
qed

lemma roundToDouble_safe: "m < 2 ^ 53 \<Longrightarrow> roundToDouble m = Some m"
  by (simp add: roundToDouble_def bitLength_le_iff)

lemma roundToDouble_Some_safe:
  assumes "roundToDouble v = Some x" and "x < 2 ^ 53"
  shows "v = x"
proof (cases "bitLength v \<le> 53")
  case True
  with assms show ?thesis by (simp add: roundToDouble_def)
next
  case False
  define e where "e = bitLength v - 53"
  define q where "q = v div 2 ^ e"
  from False have e: "0 < e" "bitLength v = e + 53" by (simp_all add: e_def)
  have "\<not> bitLength v \<le> e + 52" using e by simp
  then have "2 ^ (e + 52) \<le> v" by (simp add: bitLength_le_iff)
  then have "2 ^ 52 * 2 ^ e \<le> v" by (simp add: power_add mult.commute)
  then have q52: "2 ^ 52 \<le> q" unfolding q_def
    by (simp add: less_eq_div_iff_mult_less_eq)
  from assms(1) False have "x = q * 2 ^ e \<or> x = (q + 1) * 2 ^ e"
    by (simp add: roundToDouble_def Let_def e_def q_def split: if_splits)
  then have qx: "q * 2 ^ e \<le> x" by auto
  from e(1) have "(2::nat) \<le> 2 ^ e" by (cases e) simp_all
  with q52 have "(2::nat) ^ 52 * 2 \<le> q * 2 ^ e"
    by (intro mult_mono) simp_all
  with qx assms(2) show ?thesis by simp
qed

lemma pick_roundTrips: "pick x p = Some v \<Longrightarrow> roundToDouble v = Some x"
  by (auto simp: pick_def Let_def split: if_splits)

lemma searchDigits_roundTrips:
  "roundToDouble x = Some x \<Longrightarrow> roundToDouble (searchDigits x p) = Some x"
proof (induction x p rule: searchDigits.induct)
  case (1 x p)
  show ?case
  proof (cases "p = 0")
    case True
    with "1.prems" show ?thesis by (subst searchDigits.simps) simp
  next
    case False
    show ?thesis
    proof (cases "pick x p")
      case None
      with False "1.IH"[OF False None "1.prems"] show ?thesis
        by (subst searchDigits.simps) simp
    next
      case (Some v)
      with False pick_roundTrips[OF Some] show ?thesis
        by (subst searchDigits.simps) simp
    qed
  qed
qed

lemma shortestDecimal_safe: "x < 2 ^ 53 \<Longrightarrow> shortestDecimal x = x"
  unfolding shortestDecimal_def
  using searchDigits_roundTrips[OF roundToDouble_safe] roundToDouble_Some_safe
  by blast

lemma numberToString_safe:
  assumes "\<bar>x\<bar> < 2 ^ 53"
  shows "numberToString x = (if x < 0 then ''-'' else []) @ decimalDigits (nat \<bar>x\<bar>)"
proof -
  have m: "nat \<bar>x\<bar> < 2 ^ 53" using assms by (simp add: nat_less_iff)
  then have "nat \<bar>x\<bar> < 10 ^ 21" by simp
  then have "length (decimalDigits (nat \<bar>x\<bar>)) \<le> 21"
    by (intro length_decimalDigits) simp_all
  then have "formatDecimal (nat \<bar>x\<bar>) = decimalDigits (nat \<bar>x\<bar>)"
    by (simp add: formatDecimal_def Let_def)
  then show ?thesis
    by (simp add: numberToString_def roundToDouble_safe[OF m] shortestDecimal_safe[OF m])
qed

lemma numberToString_1e21: "numberToString (10 ^ 21) = ''1e+21''"
proof -
  have b: "bitLength 1000000000000000000000 = 70" "bitLength 2000000000000000000000 = 71"
    by (simp_all add: bitLength.simps)
  have r: "roundToDouble 1000000000000000000000 = Some 1000000000000000000000"
    by (simp add: roundToDouble_def b Let_def)
  have r2: "roundToDouble 2000000000000000000000 = Some 2000000000000000000000"
    by (simp add: roundToDouble_def b Let_def)
  have d: "decimalDigits 1000000000000000000000 = ''1000000000000000000000''"
    by (simp add: decimalDigits.simps digitChar_def char_of_eq_iff)
  have p: "pick 1000000000000000000000 21 = Some 1000000000000000000000"
    by (simp add: pick_def Let_def r r2)
  have l: "length (decimalDigits 1000000000000000000000) - 1 = 21"
    by (simp add: d)
  have s: "shortestDecimal 1000000000000000000000 = 1000000000000000000000"
    unfolding shortestDecimal_def l by (subst searchDigits.simps) (simp add: p)
  have d21: "decimalDigits 21 = ''21''"
    by (simp add: decimalDigits.simps digitChar_def char_of_eq_iff)
  have l22: "length (decimalDigits 1000000000000000000000) = 22"
    by (simp add: d)
  have f: "formatDecimal 1000000000000000000000 = ''1e+21''"
    unfolding formatDecimal_def Let_def l22 by (simp add: d d21)
  show ?thesis
    by (simp add: numberToString_def r s f)
qed

lemma parseInt_numberToString:
  assumes "\<bar>x\<bar> < 2 ^ 53"
  shows "parseInt (numberToString x) 10 = Some x"
proof (cases "x < 0")
  case True
  with parseInt_numeric_prefix(2)[of "[]" "nat \<bar>x\<bar>"] show ?thesis
    by (simp add: numberToString_safe[OF assms])
next
  case False
  with parseInt_numeric_prefix(1)[of "[]" "nat \<bar>x\<bar>"] show ?thesis
    by (simp add: numberToString_safe[OF assms])
qed

lemma parseInt_1e21: "parseInt ''1e+21'' 10 = Some 1"
  by (simp add: parseInt_def isWhiteSpace_def isRadixDigit_def digitValue_def)

section \<open>Folder resolution\<close>

lemma taxonomy_values:
  "map_of reportTypeToFolder key = Some n \<Longrightarrow> key \<noteq> [] \<and> 1 \<le> n \<and> n \<le> 15"
  by (auto simp: reportTypeToFolder_def split: if_splits)

lemma liquid_folder: "folderNumber (Some ''liquid_ir'') fld = JNum 1"
  by (simp add: folderNumber_def reportTypeLookup_def getFolderProperty_def
        reportTypeToFolder_def)

lemma constructor_folder:
  "folderNumber (Some ''constructor'') fld = JObject ''Object.prototype.constructor''"
  by (simp add: folderNumber_def reportTypeLookup_def getFolderProperty_def
        reportTypeToFolder_def objectPrototypeKeys_def)

text \<open>A safe integer is accepted exactly when it lies in 1..15.\<close>

lemma folder_integer_by_range:
  assumes "\<bar>x\<bar> < 2 ^ 53" and "\<not> truthy (reportTypeLookup rt)"
  shows "folderNumber rt (JNum x) = (if 1 \<le> x \<and> x \<le> 15 then JNum x else JNull)"
  using assms by (simp add: folderNumber_def parseInt_numberToString)

lemma folder_16_rejected: "folderNumber None (JNum 16) = JNull"
  using folder_integer_by_range[of 16 None] by (simp add: reportTypeLookup_def)

lemma folder_1e21_accepted: "folderNumber None (JNum (10 ^ 21)) = JNum 1"
  using numberToString_1e21
  by (simp add: folderNumber_def reportTypeLookup_def parseInt_1e21)

text \<open>
  C4. For every key of \<open>reportTypeToFolder\<close>, folder resolution yields exactly the mapped
  number, which lies in 1..15, whatever raw \<open>folder\<close> value the request carries as well.
\<close>

theorem taxonomy_key_takes_precedence:
  "map_of reportTypeToFolder key = Some n \<Longrightarrow>
   folderNumber (Some key) fld = JNum n \<and> 1 \<le> n \<and> n \<le> 15"
  using taxonomy_values[of key n]
  by (simp add: folderNumber_def reportTypeLookup_def getFolderProperty_def)

theorem taxonomy_key_takes_precedence_witness:
  "map_of reportTypeToFolder ''stage_ir'' = Some 9 \<and>
   folderNumber (Some ''stage_ir'') (JNum 3) = JNum 9 \<and>
   folderNumber (Some ''stage_ir'') (JStr ''nonsense'') = JNum 9"
proof -
  have k: "map_of reportTypeToFolder ''stage_ir'' = Some 9"
    by (simp add: reportTypeToFolder_def)
  from k taxonomy_key_takes_precedence[OF k, of "JNum 3"]
    taxonomy_key_takes_precedence[OF k, of "JStr ''nonsense''"]
  show ?thesis by simp
qed

text \<open>
  C5, at the failing input. The string \<open>constructor\<close> is not a key of
  \<open>reportTypeToFolder\<close> and the request carries no \<open>folder\<close>, yet the property read of
  line 92 finds the inherited member, \<open>folderNumber\<close> is that object, the 400 of line 100 is
  not sent and the report is rendered and stored. Likewise the number \<open>10^21\<close>, an integer
  outside 1..15, resolves to folder 1, since \<^verbatim>\<open>parseInt\<close> reads its numeral \<^verbatim>\<open>1e+21\<close>.
\<close>

theorem inherited_property_passes_validation:
  "map_of reportTypeToFolder ''constructor'' = None \<and>
   folderNumber (reportType constructorRequest) (folder constructorRequest)
     = JObject ''Object.prototype.constructor'' \<and>
   response (submitReport okEnv emptyStore constructorRequest) = Json_fileId 0 \<and>
   map doc_folder (files (store_after (submitReport okEnv emptyStore constructorRequest)))
     = [JObject ''Object.prototype.constructor''] \<and>
   folderNumber None (JNum (10 ^ 21)) = JNum 1"
proof -
  have "folderNumber None (JNum (10 ^ 21)) = JNum 1"
    by (rule folder_1e21_accepted)
  moreover have "map_of reportTypeToFolder ''constructor'' = None"
    by (simp add: reportTypeToFolder_def)
  moreover have "response (submitReport okEnv emptyStore constructorRequest) = Json_fileId 0"
    by (simp add: submitReport_def renderPdf_def okEnv_def emptyStore_def
          constructorRequest_def constructor_folder bucketWrite_def Let_def)
  moreover have
    "map doc_folder (files (store_after (submitReport okEnv emptyStore constructorRequest)))
       = [JObject ''Object.prototype.constructor'']"
    by (simp add: submitReport_def renderPdf_def okEnv_def emptyStore_def
          constructorRequest_def constructor_folder bucketWrite_def Let_def)
  ultimately show ?thesis
    by (simp add: constructorRequest_def constructor_folder)
qed



section \<open>Document normalisation\<close>

text \<open>
  C3, as the code has it. The title put into the document has every \<open><\<close> removed and at
  most 150 code units, whichever of \<open>reportTitle\<close>, \<open>reportType\<close> and the default it comes
  from.
\<close>

theorem resolvedTitle_stripped_and_capped:
  "CHR ''<'' \<notin> set (resolvedTitle title rt) \<and> length (resolvedTitle title rt) \<le> 150"
proof
  have "set (resolvedTitle title rt)
          \<subseteq> set (filter (\<lambda>c. c \<noteq> CHR ''<'') (orElse title (orElse rt ''Report'')))"
    unfolding resolvedTitle_def by (rule set_take_subset)
  then show "CHR ''<'' \<notin> set (resolvedTitle title rt)" by auto
  show "length (resolvedTitle title rt) \<le> 150"
    by (simp add: resolvedTitle_def)
qed

text \<open>C3, as the claim has it, fails: a closing angle bracket stays in the title.\<close>

theorem resolvedTitle_keeps_closing_bracket:
  "resolvedTitle (Some ''a>b'') None = ''a>b'' \<and>
   CHR ''>'' \<in> set (resolvedTitle (Some ''a>b'') None)"
  by (simp add: resolvedTitle_def)

lemma shellBeforeTitle_split:
  "\<exists>a. shellBeforeTitle = a @ charsetDeclaration @ ''\<newline>          <title>''"
  by (simp add: shellBeforeTitle_def)

lemma shellBeforeBody_split:
  "\<exists>b. shellBeforeBody =
         ''</title>'' @ b @ defaultStylesheet @ ''\<newline>        </head>\<newline>        <body>''"
  by (simp add: shellBeforeBody_def)

lemma shellAfterBody_split: "\<exists>c. shellAfterBody = ''</body>'' @ c"
  by (simp add: shellAfterBody_def)

lemma fullHtml_shell:
  "(sublist ''<html'' h \<longrightarrow> fullHtml h t = h) \<and>
   (\<not> sublist ''<html'' h \<longrightarrow>
      fullHtml h t = shellBeforeTitle @ t @ shellBeforeBody @ h @ shellAfterBody \<and>
      sublist charsetDeclaration (fullHtml h t) \<and>
      sublist defaultStylesheet (fullHtml h t) \<and>
      sublist (''<title>'' @ t @ ''</title>'') (fullHtml h t) \<and>
      sublist (''<body>'' @ h @ ''</body>'') (fullHtml h t))"
proof (cases "sublist ''<html'' h")
  case True
  then show ?thesis by (simp add: fullHtml_def includes_str_sublist)
next
  case False
  obtain a where a: "shellBeforeTitle = a @ charsetDeclaration @ ''\<newline>          <title>''"
    using shellBeforeTitle_split by blast
  obtain b where b: "shellBeforeBody =
      ''</title>'' @ b @ defaultStylesheet @ ''\<newline>        </head>\<newline>        <body>''"
    using shellBeforeBody_split by blast
  obtain c where c: "shellAfterBody = ''</body>'' @ c"
    using shellAfterBody_split by blast
  have eq: "fullHtml h t = shellBeforeTitle @ t @ shellBeforeBody @ h @ shellAfterBody"
    using False by (simp add: fullHtml_def includes_str_sublist)
  have 1: "sublist charsetDeclaration (fullHtml h t)"
    unfolding eq a sublist_def
    by (rule exI[of _ a],
        rule exI[of _ "''\<newline>          <title>'' @ t @ shellBeforeBody @ h @ shellAfterBody"])
       simp
  have 2: "sublist defaultStylesheet (fullHtml h t)"
    unfolding eq b sublist_def
    by (rule exI[of _ "shellBeforeTitle @ t @ ''</title>'' @ b"],
        rule exI[of _ "''\<newline>        </head>\<newline>        <body>'' @ h @ shellAfterBody"])
       simp
  have 3: "sublist (''<title>'' @ t @ ''</title>'') (fullHtml h t)"
    unfolding eq a b sublist_def
    by (rule exI[of _ "a @ charsetDeclaration @ ''\<newline>          ''"],
        rule exI[of _ "b @ defaultStylesheet @ ''\<newline>        </head>\<newline>        <body>''
                       @ h @ shellAfterBody"])
       simp
  have 4: "sublist (''<body>'' @ h @ ''</body>'') (fullHtml h t)"
    unfolding eq b c sublist_def
    by (rule exI[of _ "shellBeforeTitle @ t @ ''</title>'' @ b @ defaultStylesheet
                       @ ''\<newline>        </head>\<newline>        ''"],
        rule exI[of _ c])
       simp
  from False eq 1 2 3 4 show ?thesis by simp
qed

text \<open>
  C6, as the code has it. The test of line 110 is whether the text \<open><html\<close>, in lower
  case, occurs anywhere in the input. An input in which it occurs is the full document,
  unchanged. Any other input is put, unchanged, into the body of the shell written out
  below, whose head holds the charset declaration, the title of line 108 (with \<open><\<close>
  removed and cut to 150, nothing escaped) and the default stylesheet.
\<close>

theorem fullHtml_passes_or_wraps:
  \<open>(sublist ''<html'' h \<longrightarrow> fullHtml h (resolvedTitle title rt) = h) \<and>
   (\<not> sublist ''<html'' h \<longrightarrow>
      fullHtml h (resolvedTitle title rt) =
        concat
          [''\<newline>'',
           ''      <!DOCTYPE html>\<newline>'',
           ''      <html>\<newline>'',
           ''        <head>\<newline>'',
           ''          <meta charset="UTF-8">\<newline>'',
           ''          <title>'']
        @ resolvedTitle title rt @
        concat
          [''</title>\<newline>'',
           ''          '', ''<style>\<newline>'',
           ''            html, body {\<newline>'',
           ''              margin: 0;\<newline>'',
           ''              padding: 0;\<newline>'',
           ''              font-family: 'Segoe UI', Arial, sans-serif;\<newline>'',
           ''              font-size: 12pt;\<newline>'',
           ''              color: #000;\<newline>'',
           ''            }\<newline>'',
           ''            input, textarea, select {\<newline>'',
           ''              font-family: 'Segoe UI', Arial, sans-serif;\<newline>'',
           ''              font-size: 12pt;\<newline>'',
           ''              color: #000;\<newline>'',
           ''              border: none;\<newline>'',
           ''            }\<newline>'',
           ''            table { border-collapse: collapse; width: 100%; }\<newline>'',
           ''            td, th { border: 1px solid #000; padding: 8px; word-wrap: break-word; white-space: pre-wrap; }\<newline>'',
           ''          </style>'',
           ''\<newline>'',
           ''        </head>\<newline>'',
           ''        <body>'']
        @ h @
        concat
          [''</body>\<newline>'', ''      </html>\<newline>'', ''    ''] \<and>
      sublist ''<meta charset="UTF-8">'' (fullHtml h (resolvedTitle title rt)) \<and>
      sublist
        (concat
          [''<style>\<newline>'',
           ''            html, body {\<newline>'',
           ''              margin: 0;\<newline>'',
           ''              padding: 0;\<newline>'',
           ''              font-family: 'Segoe UI', Arial, sans-serif;\<newline>'',
           ''              font-size: 12pt;\<newline>'',
           ''              color: #000;\<newline>'',
           ''            }\<newline>'',
           ''            input, textarea, select {\<newline>'',
           ''              font-family: 'Segoe UI', Arial, sans-serif;\<newline>'',
           ''              font-size: 12pt;\<newline>'',
           ''              color: #000;\<newline>'',
           ''              border: none;\<newline>'',
           ''            }\<newline>'',
           ''            table { border-collapse: collapse; width: 100%; }\<newline>'',
           ''            td, th { border: 1px solid #000; padding: 8px; word-wrap: break-word; white-space: pre-wrap; }\<newline>'',
           ''          </style>''])
        (fullHtml h (resolvedTitle title rt)) \<and>
      sublist (''<title>'' @ resolvedTitle title rt @ ''</title>'')
        (fullHtml h (resolvedTitle title rt)) \<and>
      sublist (''<body>'' @ h @ ''</body>'') (fullHtml h (resolvedTitle title rt)))\<close>
proof (cases "sublist ''<html'' h")
  case True
  with fullHtml_shell[of h "resolvedTitle title rt"] show ?thesis by blast
next
  case False
  let ?t = "resolvedTitle title rt"
  from False fullHtml_shell[of h ?t]
  have eq: "fullHtml h ?t = shellBeforeTitle @ ?t @ shellBeforeBody @ h @ shellAfterBody"
    and 1: "sublist charsetDeclaration (fullHtml h ?t)"
    and 2: "sublist defaultStylesheet (fullHtml h ?t)"
    and 3: "sublist (''<title>'' @ ?t @ ''</title>'') (fullHtml h ?t)"
    and 4: "sublist (''<body>'' @ h @ ''</body>'') (fullHtml h ?t)"
    by blast+
  have pinned: \<open>fullHtml h ?t =
        concat
          [''\<newline>'',
           ''      <!DOCTYPE html>\<newline>'',
           ''      <html>\<newline>'',
           ''        <head>\<newline>'',
           ''          <meta charset="UTF-8">\<newline>'',
           ''          <title>'']
        @ ?t @
        concat
          [''</title>\<newline>'',
           ''          '', ''<style>\<newline>'',
           ''            html, body {\<newline>'',
           ''              margin: 0;\<newline>'',
           ''              padding: 0;\<newline>'',
           ''              font-family: 'Segoe UI', Arial, sans-serif;\<newline>'',
           ''              font-size: 12pt;\<newline>'',
           ''              color: #000;\<newline>'',
           ''            }\<newline>'',
           ''            input, textarea, select {\<newline>'',
           ''              font-family: 'Segoe UI', Arial, sans-serif;\<newline>'',
           ''              font-size: 12pt;\<newline>'',
           ''              color: #000;\<newline>'',
           ''              border: none;\<newline>'',
           ''            }\<newline>'',
           ''            table { border-collapse: collapse; width: 100%; }\<newline>'',
           ''            td, th { border: 1px solid #000; padding: 8px; word-wrap: break-word; white-space: pre-wrap; }\<newline>'',
           ''          </style>'',
           ''\<newline>'',
           ''        </head>\<newline>'',
           ''        <body>'']
        @ h @
        concat
          [''</body>\<newline>'', ''      </html>\<newline>'', ''    '']\<close>
    unfolding eq
    by (simp add: shellBeforeTitle_def shellBeforeBody_def shellAfterBody_def
          charsetDeclaration_def defaultStylesheet_def)
  from False pinned 1[unfolded charsetDeclaration_def] 2[unfolded defaultStylesheet_def] 3 4
  show ?thesis by blast
qed

theorem fullHtml_passes_or_wraps_witness:
  \<open>sublist ''<html'' ''<html><body>x</body></html>'' \<and>
   fullHtml ''<html><body>x</body></html>'' (resolvedTitle (Some ''A <b> title'') None)
     = ''<html><body>x</body></html>'' \<and>
   \<not> sublist ''<html'' ''<p>x</p>'' \<and>
   sublist ''<meta charset="UTF-8">''
     (fullHtml ''<p>x</p>'' (resolvedTitle (Some ''A <b> title'') None)) \<and>
   sublist (''<title>'' @ resolvedTitle (Some ''A <b> title'') None @ ''</title>'')
     (fullHtml ''<p>x</p>'' (resolvedTitle (Some ''A <b> title'') None)) \<and>
   sublist (''<body>'' @ ''<p>x</p>'' @ ''</body>'')
     (fullHtml ''<p>x</p>'' (resolvedTitle (Some ''A <b> title'') None))\<close>
proof -
  have y: "sublist ''<html'' ''<html><body>x</body></html>''"
    unfolding includes_str_sublist[symmetric] by simp
  have n: "\<not> sublist ''<html'' ''<p>x</p>''"
    unfolding includes_str_sublist[symmetric] by simp
  from y n
    fullHtml_passes_or_wraps[of "''<html><body>x</body></html>''" "Some ''A <b> title''" None]
    fullHtml_passes_or_wraps[of "''<p>x</p>''" "Some ''A <b> title''" None]
  show ?thesis by blast
qed

text \<open>
  C6, as the claim has it, fails. A paragraph whose text mentions \<open><html\<close> has no
  document root, yet it is passed through with no shell around it. A complete document
  whose root tag is written \<open><HTML>\<close> is not passed through: it is wrapped into the body
  of a second document. And the title is not escaped: \<open>&\<close> and \<open>>\<close> reach the title
  element as they are.
\<close>

theorem fullHtml_marker_is_literal_text:
  \<open>fullHtml ''<p>see <html</p>'' ''T'' = ''<p>see <html</p>'' \<and>
   \<not> sublist ''<style>'' (fullHtml ''<p>see <html</p>'' ''T'') \<and>
   fullHtml ''<HTML><BODY>x</BODY></HTML>'' ''T'' \<noteq> ''<HTML><BODY>x</BODY></HTML>'' \<and>
   sublist ''<body><HTML><BODY>x</BODY></HTML></body>''
     (fullHtml ''<HTML><BODY>x</BODY></HTML>'' ''T'') \<and>
   resolvedTitle (Some ''a&b>c'') None = ''a&b>c'' \<and>
   sublist ''<title>a&b>c</title>''
     (fullHtml ''<p>x</p>'' (resolvedTitle (Some ''a&b>c'') None))\<close>
proof -
  have 1: "fullHtml ''<p>see <html</p>'' ''T'' = ''<p>see <html</p>''"
    by (simp add: fullHtml_def)
  have 2: "\<not> sublist ''<style>'' ''<p>see <html</p>''"
    unfolding includes_str_sublist[symmetric] by simp
  have n3: "\<not> sublist ''<html'' ''<HTML><BODY>x</BODY></HTML>''"
    unfolding includes_str_sublist[symmetric] by simp
  have 3: "fullHtml ''<HTML><BODY>x</BODY></HTML>'' ''T'' \<noteq> ''<HTML><BODY>x</BODY></HTML>''"
    using n3 by (simp add: fullHtml_def includes_str_sublist shellBeforeTitle_def)
  have 4: "sublist (''<body>'' @ ''<HTML><BODY>x</BODY></HTML>'' @ ''</body>'')
             (fullHtml ''<HTML><BODY>x</BODY></HTML>'' ''T'')"
    using n3 fullHtml_shell[of "''<HTML><BODY>x</BODY></HTML>''" "''T''"] by blast
  have 5: "resolvedTitle (Some ''a&b>c'') None = ''a&b>c''"
    by (simp add: resolvedTitle_def)
  have n6: "\<not> sublist ''<html'' ''<p>x</p>''"
    unfolding includes_str_sublist[symmetric] by simp
  have 6: "sublist (''<title>'' @ ''a&b>c'' @ ''</title>'') (fullHtml ''<p>x</p>'' ''a&b>c'')"
    using n6 fullHtml_shell[of "''<p>x</p>''" "''a&b>c''"] by blast
  from 1 2 3 4 5 6 show ?thesis by simp
qed

section \<open>Rendering\<close>

lemma renderPdf_media:
  "PagePdf a4Options \<in> set (fst (snd (renderPdf e doc))) \<Longrightarrow>
   take 7 (fst (snd (renderPdf e doc))) =
     [Launch, NewContext, NewPage, SetContent doc ''networkidle'',
      EmulateMedia Screen, WaitForTimeout 500, PagePdf a4Options] \<and>
   EmulateMedia Print \<notin> set (fst (snd (renderPdf e doc)))"
  by (simp add: renderPdf_def split: option.splits if_splits)

lemma renderPdf_Some:
  "renderPdf e doc = (b, tr, Some buf) \<Longrightarrow>
   renderOk e \<and> pdf_result e = Some buf \<and> b = Closed"
  by (simp add: renderPdf_def renderOk_def split: option.splits if_splits)

lemma renderPdf_not_ok:
  assumes "\<not> renderOk e"
  shows "\<exists>b tr. renderPdf e doc = (b, tr, None) \<and>
           (\<forall>name fld buf. OpenUploadStream name fld \<notin> set tr \<and> UploadEnd buf \<notin> set tr)"
  using assms by (auto simp: renderPdf_def renderOk_def split: option.splits)

lemma renderPdf_leaks:
  assumes "launch_ok e"
    and "\<not> (newContext_ok e \<and> newPage_ok e \<and> setContent_ok e \<and> emulateMedia_ok e \<and>
            waitForTimeout_ok e \<and> pdf_result e \<noteq> None)"
  shows "fst (renderPdf e doc) = Open \<and> BrowserClose \<notin> set (fst (snd (renderPdf e doc)))"
  using assms by (simp add: renderPdf_def split: option.splits if_splits)

lemma submit_trace_prefix:
  "trace (submitReport e s req) = [] \<or>
   (\<exists>rest. trace (submitReport e s req) =
      fst (snd (renderPdf e (fullHtml (orElse (html req) [])
                              (resolvedTitle (reportTitle req) (reportType req))))) @ rest \<and>
      EmulateMedia Print \<notin> set rest \<and> PagePdf a4Options \<notin> set rest)"
  by (auto simp: submitReport_def generationFailed_def Let_def
           split: option.splits prod.splits)

lemma liquid_submit_trace:
  "trace (submitReport okEnv emptyStore liquidRequest) =
     [Launch, NewContext, NewPage,
      SetContent (fullHtml ''<p>x</p>'' ''liquid_ir'') ''networkidle'',
      EmulateMedia Screen, WaitForTimeout 500, PagePdf a4Options, BrowserClose,
      OpenUploadStream (uploadFilename (Some ''liquid_ir'') ''liquid_ir'' 1700000000000) (JNum 1),
      UploadEnd pdfBytes]"
  by (simp add: submitReport_def renderPdf_def okEnv_def emptyStore_def liquidRequest_def
        liquid_folder bucketWrite_def Let_def resolvedTitle_def)

text \<open>
  C1, as the code has it. In every submission that reaches the PDF capture, the calls up to
  it are: launch, new context, new page, load the document waiting for network-idle, switch
  the emulated media to \<open>screen\<close>, wait 500 ms, capture. The media is never switched to
  \<open>print\<close>.
\<close>

theorem media_is_screen_before_capture:
  assumes "PagePdf a4Options \<in> set (trace (submitReport e s req))"
  shows "(\<exists>doc. take 7 (trace (submitReport e s req)) =
            [Launch, NewContext, NewPage, SetContent doc ''networkidle'',
             EmulateMedia Screen, WaitForTimeout 500, PagePdf a4Options]) \<and>
         EmulateMedia Print \<notin> set (trace (submitReport e s req))"
proof -
  let ?doc = "fullHtml (orElse (html req) []) (resolvedTitle (reportTitle req) (reportType req))"
  let ?tr = "fst (snd (renderPdf e ?doc))"
  from submit_trace_prefix[of e s req] assms obtain rest where
    tr: "trace (submitReport e s req) = ?tr @ rest" and
    rest: "EmulateMedia Print \<notin> set rest" "PagePdf a4Options \<notin> set rest"
    by auto
  from assms tr rest have "PagePdf a4Options \<in> set ?tr" by simp
  from renderPdf_media[OF this]
  have t7: "take 7 ?tr = [Launch, NewContext, NewPage, SetContent ?doc ''networkidle'',
             EmulateMedia Screen, WaitForTimeout 500, PagePdf a4Options]"
    and np: "EmulateMedia Print \<notin> set ?tr" by simp_all
  from t7 have "length (take 7 ?tr) = 7" by simp
  then have "7 \<le> length ?tr" by simp
  then have "take 7 (?tr @ rest) = take 7 ?tr" by simp
  with t7 have "take 7 (trace (submitReport e s req)) =
      [Launch, NewContext, NewPage, SetContent ?doc ''networkidle'',
       EmulateMedia Screen, WaitForTimeout 500, PagePdf a4Options]"
    by (simp only: tr)
  moreover have "EmulateMedia Print \<notin> set (trace (submitReport e s req))"
    using np rest by (simp add: tr)
  ultimately show ?thesis by blast
qed

theorem media_is_screen_before_capture_witness:
  "PagePdf a4Options \<in> set (trace (submitReport okEnv emptyStore liquidRequest)) \<and>
   (\<exists>doc. take 7 (trace (submitReport okEnv emptyStore liquidRequest)) =
            [Launch, NewContext, NewPage, SetContent doc ''networkidle'',
             EmulateMedia Screen, WaitForTimeout 500, PagePdf a4Options]) \<and>
   EmulateMedia Print \<notin> set (trace (submitReport okEnv emptyStore liquidRequest))"
proof -
  have h: "PagePdf a4Options \<in> set (trace (submitReport okEnv emptyStore liquidRequest))"
    by (simp add: liquid_submit_trace)
  from h media_is_screen_before_capture[OF h] show ?thesis by blast
qed

text \<open>
  C1, as the claim has it, fails: a submission in which every call succeeds captures the
  PDF after switching the media to \<open>screen\<close>, and no call switches it to \<open>print\<close>.
\<close>

theorem media_never_print:
  "PagePdf a4Options \<in> set (trace (submitReport okEnv emptyStore liquidRequest)) \<and>
   EmulateMedia Screen \<in> set (trace (submitReport okEnv emptyStore liquidRequest)) \<and>
   EmulateMedia Print \<notin> set (trace (submitReport okEnv emptyStore liquidRequest))"
  by (simp add: liquid_submit_trace)

text \<open>
  C2, at the failing input. The browser is launched and \<^verbatim>\<open>page.setContent\<close> rejects: the
  handler answers 500 from the catch block, \<^verbatim>\<open>browser.close()\<close> is never called and the
  browser stays open. When every call resolves the browser is closed.
\<close>

theorem browser_left_open_when_load_fails:
  "launch_ok (okEnv\<lparr>setContent_ok := False\<rparr>) \<and>
   response (submitReport (okEnv\<lparr>setContent_ok := False\<rparr>) emptyStore liquidRequest)
     = Status_Error 500 ''Failed to generate PDF'' \<and>
   browser (submitReport (okEnv\<lparr>setContent_ok := False\<rparr>) emptyStore liquidRequest) = Open \<and>
   BrowserClose \<notin>
     set (trace (submitReport (okEnv\<lparr>setContent_ok := False\<rparr>) emptyStore liquidRequest)) \<and>
   browser (submitReport okEnv emptyStore liquidRequest) = Closed"
  by (simp add: submitReport_def renderPdf_def okEnv_def emptyStore_def liquidRequest_def
        liquid_folder generationFailed_def bucketWrite_def Let_def)

section \<open>Failures leave the store alone\<close>

text \<open>
  C8. If folder resolution yields no folder number, the answer is a 400, no call is made on
  the browser and the store is unchanged. If the request is valid and some call of the
  rendering steps rejects, the answer is the 500 of the catch block, the store is unchanged
  and no upload stream is opened or written.
\<close>

theorem failure_before_upload_keeps_store:
  "(\<not> truthy (folderNumber (reportType req) (folder req)) \<longrightarrow>
      (\<exists>msg. response (submitReport e s req) = Status_Error 400 msg) \<and>
      browser (submitReport e s req) = NotLaunched \<and>
      trace (submitReport e s req) = [] \<and>
      store_after (submitReport e s req) = s) \<and>
   (orElse (html req) [] \<noteq> [] \<and> truthy (folderNumber (reportType req) (folder req)) \<and>
    \<not> renderOk e \<longrightarrow>
      response (submitReport e s req) = Status_Error 500 ''Failed to generate PDF'' \<and>
      store_after (submitReport e s req) = s \<and>
      (\<forall>name fld buf. OpenUploadStream name fld \<notin> set (trace (submitReport e s req)) \<and>
                      UploadEnd buf \<notin> set (trace (submitReport e s req))))"
proof (intro conjI impI)
  assume "\<not> truthy (folderNumber (reportType req) (folder req))"
  then show "\<exists>msg. response (submitReport e s req) = Status_Error 400 msg"
    "browser (submitReport e s req) = NotLaunched"
    "trace (submitReport e s req) = []"
    "store_after (submitReport e s req) = s"
    by (simp_all add: submitReport_def)
next
  let ?doc = "fullHtml (orElse (html req) []) (resolvedTitle (reportTitle req) (reportType req))"
  assume a: "orElse (html req) [] \<noteq> [] \<and> truthy (folderNumber (reportType req) (folder req)) \<and>
    \<not> renderOk e"
  then obtain b tr where r: "renderPdf e ?doc = (b, tr, None)"
    and u: "\<forall>name fld buf. OpenUploadStream name fld \<notin> set tr \<and> UploadEnd buf \<notin> set tr"
    using renderPdf_not_ok[of e ?doc] by blast
  from a r have eq: "submitReport e s req = generationFailed s b tr"
    by (simp add: submitReport_def Let_def)
  show "response (submitReport e s req) = Status_Error 500 ''Failed to generate PDF''"
    "store_after (submitReport e s req) = s"
    by (simp_all add: eq generationFailed_def)
  show "\<forall>name fld buf. OpenUploadStream name fld \<notin> set (trace (submitReport e s req)) \<and>
                      UploadEnd buf \<notin> set (trace (submitReport e s req))"
    using u by (simp add: eq generationFailed_def)
qed

theorem failure_before_upload_keeps_store_witness:
  "\<not> truthy (folderNumber (reportType (rawFolderRequest (JNum 16)))
                           (folder (rawFolderRequest (JNum 16)))) \<and>
   browser (submitReport okEnv oneFileStore (rawFolderRequest (JNum 16))) = NotLaunched \<and>
   trace (submitReport okEnv oneFileStore (rawFolderRequest (JNum 16))) = [] \<and>
   store_after (submitReport okEnv oneFileStore (rawFolderRequest (JNum 16))) = oneFileStore \<and>
   \<not> renderOk (okEnv\<lparr>pdf_result := None\<rparr>) \<and>
   response (submitReport (okEnv\<lparr>pdf_result := None\<rparr>) oneFileStore liquidRequest)
     = Status_Error 500 ''Failed to generate PDF'' \<and>
   store_after (submitReport (okEnv\<lparr>pdf_result := None\<rparr>) oneFileStore liquidRequest)
     = oneFileStore"
proof -
  have 1: "\<not> truthy (folderNumber (reportType (rawFolderRequest (JNum 16)))
                           (folder (rawFolderRequest (JNum 16))))"
    by (simp add: rawFolderRequest_def folder_16_rejected)
  have 2: "orElse (html liquidRequest) [] \<noteq> [] \<and>
           truthy (folderNumber (reportType liquidRequest) (folder liquidRequest)) \<and>
           \<not> renderOk (okEnv\<lparr>pdf_result := None\<rparr>)"
    by (simp add: liquidRequest_def liquid_folder renderOk_def okEnv_def)
  from 1 2
    failure_before_upload_keeps_store[of "rawFolderRequest (JNum 16)" okEnv oneFileStore]
    failure_before_upload_keeps_store[of liquidRequest "okEnv\<lparr>pdf_result := None\<rparr>" oneFileStore]
  show ?thesis by blast
qed

section \<open>The store: submit, list, read, delete\<close>

lemma find_append_new: "\<not> list_ex P xs \<Longrightarrow> P x \<Longrightarrow> find P (xs @ [x]) = Some x"
  by (induction xs) auto

lemma find_filter_not: "find P (filter (\<lambda>d. \<not> P d) xs) = None"
  by (induction xs) auto

lemma storeInv_fresh: "storeInv s \<Longrightarrow> \<not> list_ex (hasId (nextId s)) (files s)"
  by (auto simp: storeInv_def list_all_iff list_ex_iff hasId_def)

lemma delete_absent:
  "\<not> list_ex (hasId i) (files s) \<Longrightarrow>
   deleteReport s (ObjectId i) = (s, Status_Error 500 ''Failed to delete report'')"
  by (simp add: deleteReport_def bucketDelete_def)

lemma delete_present:
  "list_ex (hasId i) (files s) \<Longrightarrow>
   deleteReport s (ObjectId i) =
     (s\<lparr>files := filter (\<lambda>d. \<not> hasId i d) (files s)\<rparr>,
      Json_message ''Report deleted successfully'')"
  by (simp add: deleteReport_def bucketDelete_def)

lemma listed_after_delete:
  "i \<notin> set (listedIds (allReports up (s\<lparr>files := filter (\<lambda>d. \<not> hasId i d) (files s)\<rparr>) q))"
  by (auto simp: allReports_def collectionFind_def hasId_def Let_def split: option.splits)

lemma submit_success:
  assumes "response (submitReport e s req) = Json_fileId i"
  shows "i = nextId s \<and> (\<exists>buf name.
           pdf_result e = Some buf \<and>
           store_after (submitReport e s req) =
             s\<lparr>files := files s @
                 [\<lparr>doc_id = nextId s, doc_filename = name,
                   doc_folder = folderNumber (reportType req) (folder req),
                   doc_uploadDate = uploadTime e, doc_content = buf\<rparr>],
               nextId := Suc (nextId s)\<rparr>)"
  using assms
  by (auto simp: submitReport_def generationFailed_def Let_def bucketWrite_def
           split: option.splits if_splits prod.splits dest!: renderPdf_Some)

lemma submit_store_cases:
  "store_after (submitReport e s req) = s \<or>
   store_after (submitReport e s req) = s\<lparr>nextId := Suc (nextId s)\<rparr> \<or>
   (\<exists>d. doc_id d = nextId s \<and>
        store_after (submitReport e s req)
          = s\<lparr>files := files s @ [d], nextId := Suc (nextId s)\<rparr>)"
proof -
  have w: "fst (bucketWrite s name fld buf t ok) = s\<lparr>nextId := Suc (nextId s)\<rparr> \<or>
    (\<exists>d. doc_id d = nextId s \<and>
         fst (bucketWrite s name fld buf t ok)
           = s\<lparr>files := files s @ [d], nextId := Suc (nextId s)\<rparr>)"
    for name fld buf t ok
    by (cases ok)
       (auto simp: bucketWrite_def Let_def
             intro!: exI[of _ "\<lparr>doc_id = nextId s, doc_filename = name, doc_folder = fld,
                                doc_uploadDate = t, doc_content = buf\<rparr>"])
  have "store_after (submitReport e s req) = s \<or>
     (\<exists>name fld buf t ok.
        store_after (submitReport e s req) = fst (bucketWrite s name fld buf t ok))"
    by (auto simp: submitReport_def generationFailed_def Let_def
             split: option.splits prod.splits)
       (metis fst_conv)+
  with w show ?thesis by metis
qed

lemma liquid_submit_response:
  "response (submitReport okEnv emptyStore liquidRequest) = Json_fileId 0"
  by (simp add: submitReport_def renderPdf_def okEnv_def emptyStore_def liquidRequest_def
        liquid_folder bucketWrite_def Let_def)

text \<open>
  C7. Let a submission with \<open>reportType\<close> \<open>liquid_ir\<close> succeed with id \<open>i\<close>, in a store whose
  ids were issued in order, the rendering engine not yielding an empty buffer. Then the
  listing filtered to folder 1 contains \<open>i\<close>; reading \<open>i\<close> streams a non-empty byte
  sequence; deleting \<open>i\<close> succeeds, after which reading \<open>i\<close> fails and no listing, filtered
  or not, contains \<open>i\<close>.
\<close>

theorem submit_list_read_delete:
  assumes inv: "storeInv s"
    and rt: "reportType req = Some ''liquid_ir''"
    and ok: "response (submitReport e s req) = Json_fileId i"
    and nonempty: "pdf_result e \<noteq> Some []"
  shows "let s1 = store_after (submitReport e s req);
             s2 = fst (deleteReport s1 (ObjectId i))
         in i \<in> set (listedIds (allReports True s1 (Some ''1''))) \<and>
            (\<exists>bytes. getPdf s1 (ObjectId i) = Pdf_stream bytes \<and> bytes \<noteq> []) \<and>
            snd (deleteReport s1 (ObjectId i)) = Json_message ''Report deleted successfully'' \<and>
            getPdf s2 (ObjectId i) = Stream_failed \<and>
            (\<forall>up q. i \<notin> set (listedIds (allReports up s2 q)))"
proof -
  from submit_success[OF ok] obtain buf name where
    i: "i = nextId s" and buf: "pdf_result e = Some buf" and
    s1: "store_after (submitReport e s req) =
           s\<lparr>files := files s @
               [\<lparr>doc_id = nextId s, doc_filename = name,
                 doc_folder = folderNumber (reportType req) (folder req),
                 doc_uploadDate = uploadTime e, doc_content = buf\<rparr>],
             nextId := Suc (nextId s)\<rparr>"
    by blast
  define d where "d = \<lparr>doc_id = nextId s, doc_filename = name,
                 doc_folder = folderNumber (reportType req) (folder req),
                 doc_uploadDate = uploadTime e, doc_content = buf\<rparr>"
  define s1' where "s1' = s\<lparr>files := files s @ [d], nextId := Suc (nextId s)\<rparr>"
  have s1eq: "store_after (submitReport e s req) = s1'" by (simp add: s1 s1'_def d_def)
  have dfolder: "doc_folder d = JNum 1" by (simp add: d_def rt liquid_folder)
  have did: "hasId i d" by (simp add: d_def hasId_def i)
  have fresh: "\<not> list_ex (hasId i) (files s)" using storeInv_fresh[OF inv] i by simp
  have bufne: "buf \<noteq> []" using nonempty buf by simp
  have listed: "i \<in> set (listedIds (allReports True s1' (Some ''1'')))"
    using dfolder did
    by (auto simp: allReports_def collectionFind_def parseInt_examples(3) s1'_def hasId_def
          image_iff intro!: bexI[of _ d])
  have rd: "getPdf s1' (ObjectId i) = Pdf_stream buf"
    using find_append_new[OF fresh did]
    by (simp add: getPdf_def bucketRead_def s1'_def d_def)
  have present: "list_ex (hasId i) (files s1')" using did by (simp add: s1'_def)
  note del = delete_present[OF present]
  have rd2: "getPdf (fst (deleteReport s1' (ObjectId i))) (ObjectId i) = Stream_failed"
    by (simp add: del getPdf_def bucketRead_def find_filter_not)
  have l2: "\<forall>up q. i \<notin> set (listedIds (allReports up (fst (deleteReport s1' (ObjectId i))) q))"
    unfolding del fst_conv using listed_after_delete by blast
  show ?thesis
    unfolding Let_def s1eq using listed rd bufne del rd2 l2 by simp
qed

theorem submit_list_read_delete_witness:
  "storeInv emptyStore \<and> reportType liquidRequest = Some ''liquid_ir'' \<and>
   response (submitReport okEnv emptyStore liquidRequest) = Json_fileId 0 \<and>
   pdf_result okEnv \<noteq> Some [] \<and>
   (let s1 = store_after (submitReport okEnv emptyStore liquidRequest);
        s2 = fst (deleteReport s1 (ObjectId 0))
    in 0 \<in> set (listedIds (allReports True s1 (Some ''1''))) \<and>
       (\<exists>bytes. getPdf s1 (ObjectId 0) = Pdf_stream bytes \<and> bytes \<noteq> []) \<and>
       snd (deleteReport s1 (ObjectId 0)) = Json_message ''Report deleted successfully'' \<and>
       getPdf s2 (ObjectId 0) = Stream_failed \<and>
       (\<forall>up q. 0 \<notin> set (listedIds (allReports up s2 q))))"
proof -
  have 1: "storeInv emptyStore" by (simp add: storeInv_def emptyStore_def)
  have 2: "reportType liquidRequest = Some ''liquid_ir''" by (simp add: liquidRequest_def)
  have 4: "pdf_result okEnv \<noteq> Some []" by (simp add: okEnv_def pdfBytes_def)
  from 1 2 liquid_submit_response 4
    submit_list_read_delete[OF 1 2 liquid_submit_response 4]
  show ?thesis by blast
qed

lemma step_keeps_retired:
  assumes "storeInv s" "i < nextId s" "\<not> list_ex (hasId i) (files s)"
  shows "storeInv (step s op) \<and> i < nextId (step s op) \<and>
         \<not> list_ex (hasId i) (files (step s op))"
proof (cases op)
  case (Submit e req)
  from submit_store_cases[of e s req] assms show ?thesis
    unfolding Submit step.simps
    by (elim disjE exE conjE) (auto simp: storeInv_def list_all_iff list_ex_iff hasId_def)
next
  case (Delete p)
  show ?thesis
  proof (cases p)
    case Malformed
    with Delete assms show ?thesis by (simp add: deleteReport_def)
  next
    case (ObjectId j)
    with Delete assms show ?thesis
      by (cases "list_ex (hasId j) (files s)")
         (auto simp: delete_present delete_absent storeInv_def list_all_iff list_ex_iff
               hasId_def)
  qed
qed (use assms in simp_all)

lemma run_keeps_retired:
  "storeInv s \<Longrightarrow> i < nextId s \<Longrightarrow> \<not> list_ex (hasId i) (files s) \<Longrightarrow>
   storeInv (run s ops) \<and> i < nextId (run s ops) \<and> \<not> list_ex (hasId i) (files (run s ops))"
proof (induction ops arbitrary: s)
  case Nil
  then show ?case by (simp add: run_def)
next
  case (Cons op ops)
  from step_keeps_retired[OF Cons.prems, of op] Cons.IH[of "step s op"]
  show ?case by (simp add: run_def)
qed

text \<open>
  C9. Deleting with a malformed id, or with an id that no stored file has (never issued, or
  deleted before), answers 500 and leaves the store as it is. Once a delete of \<open>i\<close> has
  succeeded, a delete of \<open>i\<close> fails after any further sequence of submissions, deletions,
  listings and downloads: ids are not issued twice.
\<close>

theorem delete_absent_id_fails:
  assumes inv: "storeInv s"
  shows "deleteReport s Malformed = (s, Status_Error 500 ''Failed to delete report'') \<and>
         (\<not> list_ex (hasId i) (files s) \<longrightarrow>
            deleteReport s (ObjectId i) = (s, Status_Error 500 ''Failed to delete report'')) \<and>
         (snd (deleteReport s (ObjectId i)) = Json_message ''Report deleted successfully'' \<longrightarrow>
            (\<forall>ops. snd (deleteReport (run (fst (deleteReport s (ObjectId i))) ops) (ObjectId i))
                     = Status_Error 500 ''Failed to delete report''))"
proof (intro conjI impI allI)
  show "deleteReport s Malformed = (s, Status_Error 500 ''Failed to delete report'')"
    by (simp add: deleteReport_def)
next
  assume "\<not> list_ex (hasId i) (files s)"
  then show "deleteReport s (ObjectId i) = (s, Status_Error 500 ''Failed to delete report'')"
    by (rule delete_absent)
next
  fix ops
  assume succ: "snd (deleteReport s (ObjectId i)) = Json_message ''Report deleted successfully''"
  have present: "list_ex (hasId i) (files s)"
  proof (rule ccontr)
    assume "\<not> list_ex (hasId i) (files s)"
    from delete_absent[OF this] succ show False by simp
  qed
  let ?s' = "s\<lparr>files := filter (\<lambda>d. \<not> hasId i d) (files s)\<rparr>"
  have s': "fst (deleteReport s (ObjectId i)) = ?s'" by (simp add: delete_present[OF present])
  have 1: "storeInv ?s'" using inv by (auto simp: storeInv_def list_all_iff)
  have 2: "i < nextId ?s'"
    using inv present by (auto simp: storeInv_def list_all_iff list_ex_iff hasId_def)
  have 3: "\<not> list_ex (hasId i) (files ?s')" by (auto simp: list_ex_iff)
  from run_keeps_retired[OF 1 2 3, of ops]
  have "\<not> list_ex (hasId i) (files (run ?s' ops))" by simp
  from delete_absent[OF this]
  show "snd (deleteReport (run (fst (deleteReport s (ObjectId i))) ops) (ObjectId i))
          = Status_Error 500 ''Failed to delete report''"
    by (simp add: s')
qed

theorem delete_absent_id_fails_witness:
  "storeInv oneFileStore \<and>
   \<not> list_ex (hasId 5) (files oneFileStore) \<and>
   deleteReport oneFileStore (ObjectId 5)
     = (oneFileStore, Status_Error 500 ''Failed to delete report'') \<and>
   snd (deleteReport oneFileStore (ObjectId 0)) = Json_message ''Report deleted successfully'' \<and>
   snd (deleteReport
          (run (fst (deleteReport oneFileStore (ObjectId 0)))
               [Submit okEnv liquidRequest, ListReports None])
          (ObjectId 0))
     = Status_Error 500 ''Failed to delete report''"
proof -
  have 1: "storeInv oneFileStore" by (simp add: storeInv_def oneFileStore_def)
  have 2: "\<not> list_ex (hasId 5) (files oneFileStore)" by (simp add: oneFileStore_def hasId_def)
  have 3: "snd (deleteReport oneFileStore (ObjectId 0))
             = Json_message ''Report deleted successfully''"
    by (simp add: deleteReport_def bucketDelete_def oneFileStore_def hasId_def)
  from 1 2 3 delete_absent_id_fails[OF 1, of 5] delete_absent_id_fails[OF 1, of 0]
  show ?thesis by blast
qed

end
